theory Spec2Isabelle
  imports Complex_Main
begin

section \<open>Python values, strategy objects and the state of a RateLimiter\<close>

text \<open>
  The values a caller can pass as \<^verbatim>\<open>rate_limit\<close>. A strategy instance is a reference
  into the object store, so that two references to one instance are equal and share its
  mutable \<^verbatim>\<open>last_request_time\<close>. Floats are idealised as reals.
\<close>

type_synonym addr = nat

datatype pyval =
    PyNone
  | PyBool bool
  | PyInt int
  | PyFloat real
  | PyStr string
  | PyRef addr

text \<open>\<^verbatim>\<open>isinstance(v, int)\<close>: in Python \<^verbatim>\<open>bool\<close> is a subclass of \<^verbatim>\<open>int\<close>.\<close>

fun isinstance_int :: "pyval \<Rightarrow> bool" where
  "isinstance_int (PyInt i) = True"
| "isinstance_int (PyBool b) = True"
| "isinstance_int v = False"

text \<open>\<^verbatim>\<open>isinstance(v, BaseRateLimitedRequest)\<close>.\<close>

fun isinstance_strategy :: "pyval \<Rightarrow> bool" where
  "isinstance_strategy (PyRef a) = True"
| "isinstance_strategy v = False"

text \<open>Truth value testing, as \<^verbatim>\<open>if rate_limit:\<close> does it.\<close>

fun truthy :: "pyval \<Rightarrow> bool" where
  "truthy PyNone = False"
| "truthy (PyBool b) = b"
| "truthy (PyInt i) = (i \<noteq> 0)"
| "truthy (PyFloat r) = (r \<noteq> 0)"
| "truthy (PyStr s) = (s \<noteq> [])"
| "truthy (PyRef a) = True"

text \<open>
  The number a value stands for in \<^verbatim>\<open>elapsed < self.rate_limit\<close> and
  \<^verbatim>\<open>self.rate_limit - elapsed\<close>, where \<^verbatim>\<open>elapsed\<close> is a float; \<open>None\<close> where
  Python raises \<^verbatim>\<open>TypeError\<close>.
\<close>

fun num_of :: "pyval \<Rightarrow> real option" where
  "num_of (PyInt i) = Some (of_int i)"
| "num_of (PyBool b) = Some (if b then 1 else 0)"
| "num_of (PyFloat r) = Some r"
| "num_of v = None"

text \<open>
  The two concrete strategy classes of the module. An instance of
  \<^verbatim>\<open>LastRequestRateLimitedRequest\<close> has the fields \<^verbatim>\<open>rate_limit\<close> and
  \<^verbatim>\<open>last_request_time\<close>; an instance of \<^verbatim>\<open>DefaultRateLimitedRequest\<close> has none.
\<close>

datatype strategy_class = LastRequestCls | DefaultCls

datatype strategy =
    LastRequestRateLimitedRequest (rate_limit: pyval) (last_request_time: real)
  | DefaultRateLimitedRequest

text \<open>
  What the program does to the outside world, in order: a call of \<^verbatim>\<open>wait()\<close> on an
  instance, a \<^verbatim>\<open>time.sleep\<close> (tagged with the line that calls it: line 32 inside
  \<^verbatim>\<open>wait\<close>, line 78 for the backoff), a \<^verbatim>\<open>session.request\<close>.
\<close>

datatype event =
    Wait addr
  | RateLimitSleep real
  | BackoffSleep real
  | Send string string

datatype exn =
    RequestException string
  | TypeError
  | OtherError string

text \<open>
  The fields of a \<^verbatim>\<open>RateLimiter\<close> (\<open>endpoint_limits\<close>, \<open>rate_limit_strategy\<close>), the
  object store with its allocation pointer, the clock read by \<^verbatim>\<open>time.time()\<close>, and the
  trace of events so far. The clock is ideal: it advances by sleeping, and by whatever the
  caller lets pass between two calls. Addresses below \<open>next_free\<close> hold the instances built
  so far; what the store holds from \<open>next_free\<close> on is immaterial.
\<close>

record state =
  endpoint_limits :: "string \<rightharpoonup> addr"
  rate_limit_strategy :: strategy_class
  heap :: "addr \<Rightarrow> strategy"
  next_free :: addr
  clock :: real
  trace :: "event list"

text \<open>\<^verbatim>\<open>RateLimiter.__init__\<close>, at time \<open>now\<close>.\<close>

definition RateLimiter_init :: "strategy_class \<Rightarrow> real \<Rightarrow> state" where
  "RateLimiter_init cls now =
     \<lparr>endpoint_limits = Map.empty, rate_limit_strategy = cls,
      heap = (\<lambda>a. DefaultRateLimitedRequest), next_free = 0, clock = now, trace = []\<rparr>"

section \<open>The strategies\<close>

text \<open>The constructors: \<^verbatim>\<open>cls(rate_limit)\<close> builds the object and stores it at a fresh address.\<close>

fun new_object :: "strategy_class \<Rightarrow> pyval \<Rightarrow> strategy" where
  "new_object LastRequestCls rl = LastRequestRateLimitedRequest rl 0"
| "new_object DefaultCls rl = DefaultRateLimitedRequest"

definition new_instance :: "strategy_class \<Rightarrow> pyval \<Rightarrow> state \<Rightarrow> addr \<times> state" where
  "new_instance cls rl s =
     (next_free s,
      s\<lparr>heap := (heap s)(next_free s := new_object cls rl), next_free := Suc (next_free s)\<rparr>)"

datatype sleep_site = InWait | InBackoff

text \<open>
  \<^verbatim>\<open>time.sleep(d)\<close>. Both calls of the module pass a positive duration (line 32 under
  \<^verbatim>\<open>elapsed < rate_limit\<close>, line 78 a power of two).
\<close>

definition time_sleep :: "sleep_site \<Rightarrow> real \<Rightarrow> state \<Rightarrow> state" where
  "time_sleep site d s =
     s\<lparr>clock := clock s + d,
       trace := trace s @ [case site of InWait \<Rightarrow> RateLimitSleep d | InBackoff \<Rightarrow> BackoffSleep d]\<rparr>"

text \<open>\<^verbatim>\<open>LastRequestRateLimitedRequest.wait\<close> on the instance at address \<open>a\<close>.\<close>

definition LastRequest_wait :: "addr \<Rightarrow> pyval \<Rightarrow> real \<Rightarrow> state \<Rightarrow> (exn + unit) \<times> state" where
  "LastRequest_wait a rl last_time s =
     (let current_time = clock s;
          elapsed = current_time - last_time
      in case num_of rl of
           None \<Rightarrow> (Inl TypeError, s)
         | Some m \<Rightarrow>
             (let s1 = (if elapsed < m then time_sleep InWait (m - elapsed) s else s)
              in (Inr (), s1\<lparr>heap := (heap s1)(a := LastRequestRateLimitedRequest rl (clock s1))\<rparr>)))"

text \<open>\<^verbatim>\<open>limiter.wait()\<close>: the call is recorded, then dispatched on the instance's class.\<close>

definition wait :: "addr \<Rightarrow> state \<Rightarrow> (exn + unit) \<times> state" where
  "wait a s =
     (let s0 = s\<lparr>trace := trace s @ [Wait a]\<rparr>
      in case heap s a of
           DefaultRateLimitedRequest \<Rightarrow> (Inr (), s0)
         | LastRequestRateLimitedRequest rl last_time \<Rightarrow> LastRequest_wait a rl last_time s0)"

section \<open>The RateLimiter\<close>

text \<open>\<^verbatim>\<open>_get_request_group\<close>: \<^verbatim>\<open>self.endpoint_limits.get(url)\<close>.\<close>

definition get_request_group :: "state \<Rightarrow> string \<Rightarrow> addr option" where
  "get_request_group s url = endpoint_limits s url"

text \<open>
  \<^verbatim>\<open>configure_limit\<close>: the local variable \<^verbatim>\<open>limiter\<close> is bound in two of three cases and
  the function ends there, returning \<^verbatim>\<open>None\<close>.
\<close>

definition configure_limit :: "state \<Rightarrow> string \<Rightarrow> pyval \<Rightarrow> (exn + unit) \<times> state" where
  "configure_limit s url rl =
     (if isinstance_int rl then
        (let (limiter, s1) = new_instance (rate_limit_strategy s) rl s in (Inr (), s1))
      else if isinstance_strategy rl then
        (let limiter = rl in (Inr (), s))
      else (Inr (), s))"

text \<open>Lines 63 to 69 of \<^verbatim>\<open>request\<close>: the limiter the retry loop waits on.\<close>

definition resolve :: "state \<Rightarrow> string \<Rightarrow> pyval \<Rightarrow> addr \<times> state" where
  "resolve s url rl =
     (let limiter = get_request_group s url;
          (limiter1, s1) =
             (if limiter = None \<and> truthy rl then
                (case new_instance (rate_limit_strategy s) rl s of (a, s') \<Rightarrow> (Some a, s'))
              else (limiter, s))
      in case limiter1 of
           None \<Rightarrow> new_instance DefaultCls PyNone s1
         | Some a \<Rightarrow> (a, s1))"

text \<open>
  Lines 71 to 78: the loop \<^verbatim>\<open>for retry in range(retries)\<close>, from the iteration \<open>retry\<close> on.
  \<open>session meth url kwargs retry\<close> is what \<^verbatim>\<open>self.session.request\<close> does on the attempt
  with index \<open>retry\<close>: a response, or an exception. Falling out of the loop returns
  \<^verbatim>\<open>None\<close>.
\<close>

function retry_loop ::
  "(string \<Rightarrow> string \<Rightarrow> 'k \<Rightarrow> nat \<Rightarrow> exn + 'r) \<Rightarrow> state \<Rightarrow> addr \<Rightarrow> string \<Rightarrow> string \<Rightarrow> 'k
     \<Rightarrow> int \<Rightarrow> nat \<Rightarrow> (exn + 'r option) \<times> state" where
  "retry_loop session s limiter meth url kwargs retries retry =
     (if int retry < retries then
        (case wait limiter s of
           (Inl e, s1) \<Rightarrow> (Inl e, s1)
         | (Inr u, s1) \<Rightarrow>
             (let s2 = s1\<lparr>trace := trace s1 @ [Send meth url]\<rparr>
              in case session meth url kwargs retry of
                   Inr response \<Rightarrow> (Inr (Some response), s2)
                 | Inl (RequestException c) \<Rightarrow>
                     if int retry = retries - 1 then (Inl (RequestException c), s2)
                     else retry_loop session (time_sleep InBackoff (2 ^ retry) s2) limiter
                            meth url kwargs retries (Suc retry)
                 | Inl e \<Rightarrow> (Inl e, s2)))
      else (Inr None, s))"
  by pat_completeness auto
termination
  by (relation "measure (\<lambda>(session, s, limiter, meth, url, kwargs, retries, retry).
        nat (retries - int retry))") auto

definition request ::
  "(string \<Rightarrow> string \<Rightarrow> 'k \<Rightarrow> nat \<Rightarrow> exn + 'r) \<Rightarrow> state \<Rightarrow> string \<Rightarrow> string \<Rightarrow> pyval \<Rightarrow> int \<Rightarrow> 'k
     \<Rightarrow> (exn + 'r option) \<times> state" where
  "request session s meth url rl retries kwargs =
     (case resolve s url rl of
        (limiter, s1) \<Rightarrow> retry_loop session s1 limiter meth url kwargs retries 0)"

section \<open>Reading the trace\<close>

text \<open>The events between an earlier state and a later one.\<close>

definition new_events :: "state \<Rightarrow> state \<Rightarrow> event list" where
  "new_events s s' = drop (length (trace s)) (trace s')"

text \<open>The number of transport attempts, and the durations of the backoff sleeps, in order.\<close>

fun sends :: "event list \<Rightarrow> nat" where
  "sends [] = 0"
| "sends (Send m u # es) = Suc (sends es)"
| "sends (e # es) = sends es"

fun backoffs :: "event list \<Rightarrow> real list" where
  "backoffs [] = []"
| "backoffs (BackoffSleep d # es) = d # backoffs es"
| "backoffs (e # es) = backoffs es"

text \<open>The instances \<^verbatim>\<open>wait()\<close> was called on, in order.\<close>

fun waits :: "event list \<Rightarrow> addr list" where
  "waits [] = []"
| "waits (Wait a # es) = a # waits es"
| "waits (e # es) = waits es"

text \<open>
  \<open>wait_before_send a w es\<close>: in \<open>es\<close>, every transport attempt comes after a call of
  \<^verbatim>\<open>wait()\<close> on the instance \<open>a\<close> that no earlier attempt has used up; \<open>w\<close> tells
  whether such a call is pending at the start.
\<close>

fun wait_before_send :: "addr \<Rightarrow> bool \<Rightarrow> event list \<Rightarrow> bool" where
  "wait_before_send a w [] = True"
| "wait_before_send a w (Wait b # es) = wait_before_send a (b = a) es"
| "wait_before_send a w (Send m u # es) = (w \<and> wait_before_send a False es)"
| "wait_before_send a w (e # es) = wait_before_send a w es"

text \<open>
  The instance at \<open>a\<close> is one whose \<^verbatim>\<open>wait()\<close> returns: a
  \<^verbatim>\<open>DefaultRateLimitedRequest\<close>, or a \<^verbatim>\<open>LastRequestRateLimitedRequest\<close> whose
  \<^verbatim>\<open>rate_limit\<close> is a number.
\<close>

definition wait_returns :: "state \<Rightarrow> addr \<Rightarrow> bool" where
  "wait_returns s a =
     (case heap s a of
        DefaultRateLimitedRequest \<Rightarrow> True
      | LastRequestRateLimitedRequest rl last_time \<Rightarrow> num_of rl \<noteq> None)"

section \<open>Facts about traces, waits and the loop\<close>

declare retry_loop.simps [simp del]

lemma sends_append: "sends (xs @ ys) = sends xs + sends ys"
  by (induction xs rule: sends.induct) auto

lemma backoffs_append: "backoffs (xs @ ys) = backoffs xs @ backoffs ys"
  by (induction xs rule: backoffs.induct) auto

lemma waits_append: "waits (xs @ ys) = waits xs @ waits ys"
  by (induction xs rule: waits.induct) auto

lemma wait_effect:
  "\<exists>es. trace (snd (wait a s)) = trace s @ Wait a # es \<and> sends es = 0 \<and> backoffs es = [] \<and> waits es = []
     \<and> endpoint_limits (snd (wait a s)) = endpoint_limits s"
  by (auto simp: wait_def LastRequest_wait_def time_sleep_def Let_def split: strategy.splits option.splits)

lemma wait_returns_wait:
  "wait_returns s a \<Longrightarrow> fst (wait a s) = Inr () \<and> wait_returns (snd (wait a s)) a"
  by (auto simp: wait_returns_def wait_def LastRequest_wait_def time_sleep_def Let_def split: strategy.splits option.splits)

lemma wait_returns_trace [simp]: "wait_returns (s\<lparr>trace := t\<rparr>) a = wait_returns s a"
  by (simp add: wait_returns_def)

lemma wait_returns_sleep [simp]: "wait_returns (time_sleep site d s) a = wait_returns s a"
  by (simp add: wait_returns_def time_sleep_def)

lemma trace_sleep [simp]: "trace (time_sleep InBackoff d s) = trace s @ [BackoffSleep d]"
  by (simp add: time_sleep_def)

lemma wait_clock: "clock s \<le> clock (snd (wait a s))"
  by (auto simp: wait_def LastRequest_wait_def time_sleep_def Let_def split: strategy.splits option.splits)

lemma retry_loop_done: "\<not> int i < N \<Longrightarrow> retry_loop session s a m u k N i = (Inr None, s)"
  by (simp add: retry_loop.simps)

lemma retry_loop_step:
  assumes "int i < N" and "fst (wait a s) = Inr ()"
  shows "retry_loop session s a m u k N i =
     (let s2 = (snd (wait a s))\<lparr>trace := trace (snd (wait a s)) @ [Send m u]\<rparr>
      in case session m u k i of
           Inr response \<Rightarrow> (Inr (Some response), s2)
         | Inl (RequestException c) \<Rightarrow>
             if int i = N - 1 then (Inl (RequestException c), s2)
             else retry_loop session (time_sleep InBackoff (2 ^ i) s2) a m u k N (Suc i)
         | Inl e \<Rightarrow> (Inl e, s2))"
  using assms by (subst retry_loop.simps) (simp add: case_prod_unfold split: sum.splits)

lemma retry_loop_wait_raises:
  assumes "int i < N" and "fst (wait a s) = Inl e"
  shows "retry_loop session s a m u k N i = (Inl e, snd (wait a s))"
  using assms by (subst retry_loop.simps) (simp add: case_prod_unfold split: sum.splits)

lemma sum_powers_of_two: "sum_list (map (\<lambda>j. 2 ^ j) [0..<n]) = (2::real) ^ n - 1"
  by (induction n) simp_all

lemma resolve_cases:
  "resolve s url rl =
     (case get_request_group s url of
        Some a \<Rightarrow> (a, s)
      | None \<Rightarrow> if truthy rl then new_instance (rate_limit_strategy s) rl s
                else new_instance DefaultCls PyNone s)"
  by (simp add: resolve_def new_instance_def Let_def split: option.splits)

lemma resolve_frame:
  "trace (snd (resolve s url rl)) = trace s"
  "clock (snd (resolve s url rl)) = clock s"
  "endpoint_limits (snd (resolve s url rl)) = endpoint_limits s"
  by (simp_all add: resolve_cases new_instance_def split: option.splits)

lemma request_unfold:
  "request session s m u rl N k = retry_loop session (snd (resolve s u rl)) (fst (resolve s u rl)) m u k N 0"
  by (simp add: request_def case_prod_unfold)

lemma configure_limit_cases:
  "configure_limit s url rl =
     (Inr (), if isinstance_int rl then snd (new_instance (rate_limit_strategy s) rl s) else s)"
  by (simp add: configure_limit_def new_instance_def Let_def)

lemma all_fail_loop:
  assumes fails: "\<forall>j. int j < N \<longrightarrow> session m u k j = Inl (RequestException (c j))"
  shows "int i < N \<Longrightarrow> wait_returns s a \<Longrightarrow>
     \<exists>es. fst (retry_loop session s a m u k N i) = Inl (RequestException (c (nat N - 1)))
        \<and> trace (snd (retry_loop session s a m u k N i)) = trace s @ es
        \<and> sends es = nat N - i
        \<and> backoffs es = map (\<lambda>j. 2 ^ j) [i..<nat N - 1]
        \<and> clock s + sum_list (backoffs es) \<le> clock (snd (retry_loop session s a m u k N i))"
proof (induction "nat N - Suc i" arbitrary: i s)
  case 0
  then have last: "int i = N - 1" by linarith
  from "0.prems" have w: "fst (wait a s) = Inr ()" by (simp add: wait_returns_wait)
  obtain ws where ws: "trace (snd (wait a s)) = trace s @ Wait a # ws" "sends ws = 0" "backoffs ws = []"
    using wait_effect [of a s] by blast
  have out: "session m u k i = Inl (RequestException (c i))" using fails "0.prems" by simp
  have idx: "nat N - 1 = i" "nat N - i = Suc 0" using last by linarith+
  have "retry_loop session s a m u k N i =
          (Inl (RequestException (c i)), (snd (wait a s))\<lparr>trace := trace (snd (wait a s)) @ [Send m u]\<rparr>)"
    using retry_loop_step [OF "0.prems"(1) w, of session m u k] out last by (simp add: Let_def)
  then show ?case
    using ws idx wait_clock [of s a] by (simp add: sends_append backoffs_append)
next
  case (Suc n)
  then have notlast: "int i \<noteq> N - 1" and next_lt: "int (Suc i) < N" and n: "n = nat N - Suc (Suc i)"
    by linarith+
  from Suc.prems have w: "fst (wait a s) = Inr ()" and wr: "wait_returns (snd (wait a s)) a"
    by (simp_all add: wait_returns_wait)
  obtain ws where ws: "trace (snd (wait a s)) = trace s @ Wait a # ws" "sends ws = 0" "backoffs ws = []"
    using wait_effect [of a s] by blast
  have out: "session m u k i = Inl (RequestException (c i))" using fails Suc.prems by simp
  define s3 where "s3 = time_sleep InBackoff (2 ^ i) ((snd (wait a s))\<lparr>trace := trace (snd (wait a s)) @ [Send m u]\<rparr>)"
  have step: "retry_loop session s a m u k N i = retry_loop session s3 a m u k N (Suc i)"
    using retry_loop_step [OF Suc.prems(1) w, of session m u k] out notlast by (simp add: Let_def s3_def)
  have wr3: "wait_returns s3 a" using wr by (simp add: s3_def)
  have tr3: "trace s3 = trace s @ Wait a # ws @ [Send m u, BackoffSleep (2 ^ i)]"
    using ws by (simp add: s3_def)
  have cl3: "clock s + 2 ^ i \<le> clock s3"
    using wait_clock [of s a] by (simp add: s3_def time_sleep_def)
  obtain es where es: "fst (retry_loop session s3 a m u k N (Suc i)) = Inl (RequestException (c (nat N - 1)))"
      "trace (snd (retry_loop session s3 a m u k N (Suc i))) = trace s3 @ es"
      "sends es = nat N - Suc i" "backoffs es = map (\<lambda>j. 2 ^ j) [Suc i..<nat N - 1]"
      "clock s3 + sum_list (backoffs es) \<le> clock (snd (retry_loop session s3 a m u k N (Suc i)))"
    using Suc.hyps(1) [OF n next_lt wr3] by blast
  have range: "[i..<nat N - 1] = i # [Suc i..<nat N - 1]"
    using next_lt by (simp add: upt_conv_Cons)
  have cnt: "Suc (nat N - Suc i) = nat N - i" using next_lt by linarith
  show ?case
    apply (rule exI [of _ "Wait a # ws @ [Send m u, BackoffSleep (2 ^ i)] @ es"])
    using es ws tr3 cl3 range cnt by (simp add: step sends_append backoffs_append)
qed

lemma fail_then_succeed_loop:
  assumes fails: "\<forall>j. j < k \<longrightarrow> session m u kw j = Inl (RequestException (c j))"
    and ok: "session m u kw k = Inr r" and kN: "int k < N"
  shows "i \<le> k \<Longrightarrow> wait_returns s a \<Longrightarrow>
     \<exists>es. fst (retry_loop session s a m u kw N i) = Inr (Some r)
        \<and> trace (snd (retry_loop session s a m u kw N i)) = trace s @ es @ [Send m u]
        \<and> sends es = k - i
        \<and> backoffs es = map (\<lambda>j. 2 ^ j) [i..<k]"
proof (induction "k - i" arbitrary: i s)
  case 0
  then have ik: "i = k" by simp
  from "0.prems" have w: "fst (wait a s) = Inr ()" by (simp add: wait_returns_wait)
  obtain ws where ws: "trace (snd (wait a s)) = trace s @ Wait a # ws" "sends ws = 0" "backoffs ws = []"
    using wait_effect [of a s] by blast
  have lt: "int i < N" using kN ik by simp
  have "retry_loop session s a m u kw N i =
          (Inr (Some r), (snd (wait a s))\<lparr>trace := trace (snd (wait a s)) @ [Send m u]\<rparr>)"
    using retry_loop_step [OF lt w, of session m u kw] ok ik by (simp add: Let_def)
  then show ?case
    using ws ik by (intro exI [of _ "Wait a # ws"]) simp
next
  case (Suc n)
  then have ik: "i < k" and n: "n = k - Suc i" and le: "Suc i \<le> k" by linarith+
  have lt: "int i < N" and notlast: "int i \<noteq> N - 1" using kN ik by linarith+
  from Suc.prems have w: "fst (wait a s) = Inr ()" and wr: "wait_returns (snd (wait a s)) a"
    by (simp_all add: wait_returns_wait)
  obtain ws where ws: "trace (snd (wait a s)) = trace s @ Wait a # ws" "sends ws = 0" "backoffs ws = []"
    using wait_effect [of a s] by blast
  have out: "session m u kw i = Inl (RequestException (c i))" using fails ik by simp
  define s3 where "s3 = time_sleep InBackoff (2 ^ i) ((snd (wait a s))\<lparr>trace := trace (snd (wait a s)) @ [Send m u]\<rparr>)"
  have step: "retry_loop session s a m u kw N i = retry_loop session s3 a m u kw N (Suc i)"
    using retry_loop_step [OF lt w, of session m u kw] out notlast by (simp add: Let_def s3_def)
  have wr3: "wait_returns s3 a" using wr by (simp add: s3_def)
  have tr3: "trace s3 = trace s @ Wait a # ws @ [Send m u, BackoffSleep (2 ^ i)]"
    using ws by (simp add: s3_def)
  obtain es where es: "fst (retry_loop session s3 a m u kw N (Suc i)) = Inr (Some r)"
      "trace (snd (retry_loop session s3 a m u kw N (Suc i))) = trace s3 @ es @ [Send m u]"
      "sends es = k - Suc i" "backoffs es = map (\<lambda>j. 2 ^ j) [Suc i..<k]"
    using Suc.hyps(1) [OF n le wr3] by blast
  have range: "[i..<k] = i # [Suc i..<k]"
    using ik by (simp add: upt_conv_Cons)
  have cnt: "Suc (k - Suc i) = k - i" using ik by linarith
  show ?case
    apply (rule exI [of _ "Wait a # ws @ [Send m u, BackoffSleep (2 ^ i)] @ es"])
    using es ws tr3 range cnt by (simp add: step sends_append backoffs_append)
qed

lemma wait_before_send_skip:
  "sends ws = 0 \<Longrightarrow> waits ws = [] \<Longrightarrow> wait_before_send a w (ws @ es) = wait_before_send a w es"
proof (induction ws)
  case Nil
  then show ?case by simp
next
  case (Cons e ws)
  then show ?case by (cases e) simp_all
qed

lemma loop_waits_before_sends:
  "\<exists>es. trace (snd (retry_loop session s a m u kw N i)) = trace s @ es
      \<and> wait_before_send a w es
      \<and> set (waits es) \<subseteq> {a}
      \<and> (if int i < N then hd (waits es) = a \<and> waits es \<noteq> [] else es = [])"
proof (induction "nat (N - int i)" arbitrary: i s w)
  case 0
  then have "\<not> int i < N" by simp
  then show ?case by (simp add: retry_loop_done)
next
  case (Suc n)
  then have lt: "int i < N" and n: "n = nat (N - int (Suc i))" by linarith+
  obtain ws where ws: "trace (snd (wait a s)) = trace s @ Wait a # ws" "sends ws = 0"
      "backoffs ws = []" "waits ws = []"
    using wait_effect [of a s] by blast
  let ?s2 = "(snd (wait a s))\<lparr>trace := trace (snd (wait a s)) @ [Send m u]\<rparr>"
  have one: "wait_before_send a w (Wait a # ws @ [Send m u])"
    using ws by (simp add: wait_before_send_skip)
  have stop: ?case if "retry_loop session s a m u kw N i = (res, ?s2)" for res
    using that ws one lt by (intro exI [of _ "Wait a # ws @ [Send m u]"]) (simp add: waits_append)
  show ?case
  proof (cases "fst (wait a s)")
    case (Inl e)
    then have "retry_loop session s a m u kw N i = (Inl e, snd (wait a s))"
      using lt by (rule retry_loop_wait_raises [rotated])
    then show ?thesis
      using ws lt by (intro exI [of _ "Wait a # ws"]) (simp add: wait_before_send_skip [of ws a _ "[]", simplified])
  next
    case (Inr x)
    then have w: "fst (wait a s) = Inr ()" by simp
    note step = retry_loop_step [OF lt w, of session m u kw]
    show ?thesis
    proof (cases "session m u kw i")
      case (Inr r)
      then show ?thesis using step stop by (simp add: Let_def)
    next
      case (Inl e)
      show ?thesis
      proof (cases e)
        case (RequestException c)
        show ?thesis
        proof (cases "int i = N - 1")
          case True
          then show ?thesis using step stop Inl RequestException by (simp add: Let_def)
        next
          case False
          define s3 where "s3 = time_sleep InBackoff (2 ^ i) ?s2"
          have eq: "retry_loop session s a m u kw N i = retry_loop session s3 a m u kw N (Suc i)"
            using step Inl RequestException False by (simp add: Let_def s3_def)
          have tr3: "trace s3 = trace s @ Wait a # ws @ [Send m u, BackoffSleep (2 ^ i)]"
            using ws by (simp add: s3_def)
          obtain es where es: "trace (snd (retry_loop session s3 a m u kw N (Suc i))) = trace s3 @ es"
              "wait_before_send a False es" "set (waits es) \<subseteq> {a}"
            using Suc.hyps(1) [OF n, of s3 False] by blast
          have "wait_before_send a w (Wait a # ws @ [Send m u, BackoffSleep (2 ^ i)] @ es)"
            using ws es(2) by (simp add: wait_before_send_skip)
          then show ?thesis
            using es ws tr3 lt
            by (intro exI [of _ "Wait a # ws @ [Send m u, BackoffSleep (2 ^ i)] @ es"])
               (simp add: eq waits_append)
        qed
      next
        case TypeError
        then show ?thesis using step stop Inl by (simp add: Let_def)
      next
        case (OtherError x)
        then show ?thesis using step stop Inl by (simp add: Let_def)
      qed
    qed
  qed
qed

lemma loop_trace_extends:
  "\<exists>es. trace (snd (retry_loop session s a m u kw N i)) = trace s @ es"
  using loop_waits_before_sends [of session s a m u kw N i False] by blast

lemma sends_pos_nonempty: "0 < sends es \<Longrightarrow> es \<noteq> []"
  by (cases es) simp_all

lemma response_ends_loop:
  assumes resp: "session m u kw k = Inr r"
  shows "wait_returns s a \<Longrightarrow> i \<le> k
     \<Longrightarrow> k - i < sends (new_events s (snd (retry_loop session s a m u kw N i)))
     \<Longrightarrow> fst (retry_loop session s a m u kw N i) = Inr (Some r)
        \<and> sends (new_events s (snd (retry_loop session s a m u kw N i))) = Suc (k - i)
        \<and> last (new_events s (snd (retry_loop session s a m u kw N i))) = Send m u
        \<and> backoffs (new_events s (snd (retry_loop session s a m u kw N i)))
            = map (\<lambda>j. 2 ^ j) [i..<k]"
proof (induction "k - i" arbitrary: i s)
  case 0
  then have ik: "i = k" by simp
  have lt: "int i < N"
  proof (rule ccontr)
    assume "\<not> int i < N"
    then have "retry_loop session s a m u kw N i = (Inr None, s)" by (rule retry_loop_done)
    then show False using "0.prems"(3) by (simp add: new_events_def)
  qed
  from "0.prems" have w: "fst (wait a s) = Inr ()" by (simp add: wait_returns_wait)
  obtain ws where ws: "trace (snd (wait a s)) = trace s @ Wait a # ws" "sends ws = 0" "backoffs ws = []"
    using wait_effect [of a s] by blast
  have "retry_loop session s a m u kw N i =
          (Inr (Some r), (snd (wait a s))\<lparr>trace := trace (snd (wait a s)) @ [Send m u]\<rparr>)"
    using retry_loop_step [OF lt w, of session m u kw] resp ik by (simp add: Let_def)
  then show ?case
    using ws ik by (simp add: new_events_def sends_append backoffs_append)
next
  case (Suc n)
  then have ik: "i < k" and n: "n = k - Suc i" and le: "Suc i \<le> k" by linarith+
  let ?out = "retry_loop session s a m u kw N i"
  have many: "1 < sends (new_events s (snd ?out))" using Suc.prems(3) ik by linarith
  have lt: "int i < N"
  proof (rule ccontr)
    assume "\<not> int i < N"
    then have "?out = (Inr None, s)" by (rule retry_loop_done)
    then show False using many by (simp add: new_events_def)
  qed
  from Suc.prems have w: "fst (wait a s) = Inr ()" and wr: "wait_returns (snd (wait a s)) a"
    by (simp_all add: wait_returns_wait)
  obtain ws where ws: "trace (snd (wait a s)) = trace s @ Wait a # ws" "sends ws = 0" "backoffs ws = []"
    using wait_effect [of a s] by blast
  let ?s2 = "(snd (wait a s))\<lparr>trace := trace (snd (wait a s)) @ [Send m u]\<rparr>"
  note step = retry_loop_step [OF lt w, of session m u kw]
  have one: "sends (new_events s ?s2) = 1"
    using ws by (simp add: new_events_def sends_append)
  have stop: False if "snd ?out = ?s2"
    using that many one by simp
  define s3 where "s3 = time_sleep InBackoff (2 ^ i) ?s2"
  have eq: "?out = retry_loop session s3 a m u kw N (Suc i)"
  proof (cases "session m u kw i")
    case (Inr r')
    then have "snd ?out = ?s2" using step by (simp add: Let_def)
    then show ?thesis using stop by simp
  next
    case (Inl e)
    show ?thesis
    proof (cases e)
      case (RequestException c)
      show ?thesis
      proof (cases "int i = N - 1")
        case True
        then have "snd ?out = ?s2" using step Inl RequestException by (simp add: Let_def)
        then show ?thesis using stop by simp
      next
        case False
        then show ?thesis using step Inl RequestException by (simp add: Let_def s3_def)
      qed
    next
      case TypeError
      then have "snd ?out = ?s2" using step Inl by (simp add: Let_def)
      then show ?thesis using stop by simp
    next
      case (OtherError x)
      then have "snd ?out = ?s2" using step Inl by (simp add: Let_def)
      then show ?thesis using stop by simp
    qed
  qed
  let ?out3 = "retry_loop session s3 a m u kw N (Suc i)"
  have wr3: "wait_returns s3 a" using wr by (simp add: s3_def)
  have tr3: "trace s3 = trace s @ Wait a # ws @ [Send m u, BackoffSleep (2 ^ i)]"
    using ws by (simp add: s3_def)
  obtain es where es: "trace (snd ?out3) = trace s3 @ es"
    using loop_trace_extends [of session s3 a m u kw N "Suc i"] by blast
  have ne3: "new_events s3 (snd ?out3) = es" using es by (simp add: new_events_def)
  have ne: "new_events s (snd ?out3) = Wait a # ws @ [Send m u, BackoffSleep (2 ^ i)] @ es"
    using es tr3 by (simp add: new_events_def)
  have cnt: "sends (new_events s (snd ?out3)) = Suc (sends es)"
    using ws by (simp add: ne sends_append)
  have more: "k - Suc i < sends (new_events s3 (snd ?out3))"
    using Suc.prems(3) cnt ik by (simp add: eq ne3)
  have ih: "fst ?out3 = Inr (Some r)" "sends es = Suc (k - Suc i)" "last es = Send m u"
      "backoffs es = map (\<lambda>j. 2 ^ j) [Suc i..<k]"
    using Suc.hyps(1) [OF n wr3 le more] by (simp_all add: ne3)
  have range: "[i..<k] = i # [Suc i..<k]"
    using ik by (simp add: upt_conv_Cons)
  have nonempty: "es \<noteq> []" using ih(2) by (intro sends_pos_nonempty) simp
  have cnt2: "Suc (Suc (k - Suc i)) = Suc (k - i)" using ik by linarith
  show ?case
    using ih nonempty cnt cnt2 ws range by (simp add: eq ne backoffs_append)
qed

section \<open>The fixed-interval strategy\<close>

text \<open>
  Claim C5. On a \<^verbatim>\<open>LastRequestRateLimitedRequest\<close> whose \<^verbatim>\<open>rate_limit\<close> is the number
  \<open>m\<close> and whose \<^verbatim>\<open>last_request_time\<close> is \<open>t0\<close>, \<^verbatim>\<open>wait()\<close> returns; with
  \<open>elapsed = clock - t0\<close> it sleeps exactly \<open>m - elapsed\<close> when \<open>elapsed < m\<close> and does not sleep
  otherwise, and then stores the time after the sleep as \<^verbatim>\<open>last_request_time\<close>. A second
  \<^verbatim>\<open>wait()\<close> on the same instance, started at any later time with the instance untouched
  in between, completes at least \<open>m\<close> after the first one did.
\<close>

theorem LastRequest_wait_spacing:
  assumes "heap s a = LastRequestRateLimitedRequest rl t0" and "num_of rl = Some m"
    and "s1 = snd (wait a s)"
    and "heap s2 a = heap s1 a" and "clock s1 \<le> clock s2"
  shows "fst (wait a s) = Inr ()
     \<and> new_events s s1 =
          Wait a # (if clock s - t0 < m then [RateLimitSleep (m - (clock s - t0))] else [])
     \<and> clock s1 = (if clock s - t0 < m then clock s + (m - (clock s - t0)) else clock s)
     \<and> heap s1 a = LastRequestRateLimitedRequest rl (clock s1)
     \<and> fst (wait a s2) = Inr ()
     \<and> clock s1 + m \<le> clock (snd (wait a s2))"
proof -
  have first: "fst (wait a s) = Inr ()"
      "new_events s s1 = Wait a # (if clock s - t0 < m then [RateLimitSleep (m - (clock s - t0))] else [])"
      "clock s1 = (if clock s - t0 < m then clock s + (m - (clock s - t0)) else clock s)"
      "heap s1 a = LastRequestRateLimitedRequest rl (clock s1)"
    using assms(1,2) unfolding assms(3)
    by (simp_all add: wait_def LastRequest_wait_def time_sleep_def new_events_def Let_def)
  have h2: "heap s2 a = LastRequestRateLimitedRequest rl (clock s1)"
    using assms(4) first(4) by simp
  have second: "fst (wait a s2) = Inr ()" "clock s1 + m \<le> clock (snd (wait a s2))"
    using h2 assms(2,5)
    by (simp_all add: wait_def LastRequest_wait_def time_sleep_def Let_def)
  show ?thesis using first second by simp
qed

theorem LastRequest_wait_spacing_witness:
  "heap (snd (new_instance LastRequestCls (PyInt 2) (RateLimiter_init LastRequestCls 1))) 0
      = LastRequestRateLimitedRequest (PyInt 2) 0
   \<and> num_of (PyInt 2) = Some 2
   \<and> fst (wait 0 (snd (new_instance LastRequestCls (PyInt 2) (RateLimiter_init LastRequestCls 1)))) = Inr ()
   \<and> new_events (snd (new_instance LastRequestCls (PyInt 2) (RateLimiter_init LastRequestCls 1)))
        (snd (wait 0 (snd (new_instance LastRequestCls (PyInt 2) (RateLimiter_init LastRequestCls 1)))))
      = [Wait 0, RateLimitSleep 1]
   \<and> clock (snd (wait 0 (snd (new_instance LastRequestCls (PyInt 2) (RateLimiter_init LastRequestCls 1))))) = 2
   \<and> clock (snd (wait 0 (snd (new_instance LastRequestCls (PyInt 2) (RateLimiter_init LastRequestCls 1))))) + 2
      \<le> clock (snd (wait 0 (snd (wait 0 (snd (new_instance LastRequestCls (PyInt 2) (RateLimiter_init LastRequestCls 1)))))))"
proof -
  let ?s = "snd (new_instance LastRequestCls (PyInt 2) (RateLimiter_init LastRequestCls 1))"
  have h1: "heap ?s 0 = LastRequestRateLimitedRequest (PyInt 2) 0"
    by (simp add: new_instance_def RateLimiter_init_def)
  have h2: "num_of (PyInt 2) = Some 2" by simp
  have c: "clock ?s = 1" by (simp add: new_instance_def RateLimiter_init_def)
  show ?thesis
    using h1 h2 c LastRequest_wait_spacing [OF h1 h2 refl refl order_refl] by simp
qed

section \<open>Configuring an endpoint\<close>

text \<open>
  Claim C1. After \<^verbatim>\<open>configure_limit(url, 5)\<close>, and after \<^verbatim>\<open>configure_limit\<close> with an
  existing strategy instance, \<^verbatim>\<open>_get_request_group(url)\<close> should return the limiter. The
  code binds the local variable \<^verbatim>\<open>limiter\<close> and never stores it: the lookup returns
  \<^verbatim>\<open>None\<close> in both cases.
\<close>

theorem configure_limit_does_not_store:
  "get_request_group
     (snd (configure_limit (RateLimiter_init LastRequestCls 1000) ''https://api.example.com/x'' (PyInt 5)))
     ''https://api.example.com/x'' = None
   \<and> get_request_group
     (snd (configure_limit (snd (new_instance LastRequestCls (PyInt 3) (RateLimiter_init LastRequestCls 1000)))
        ''https://api.example.com/x'' (PyRef 0)))
     ''https://api.example.com/x'' = None"
  by (simp add: configure_limit_cases new_instance_def get_request_group_def RateLimiter_init_def)

text \<open>
  Claim C3, as the code has it. \<^verbatim>\<open>configure_limit\<close> raises nothing, whatever
  \<^verbatim>\<open>rate_limit\<close> is: it returns \<^verbatim>\<open>None\<close>. When \<^verbatim>\<open>rate_limit\<close> is neither an
  \<^verbatim>\<open>int\<close> nor a strategy instance the call changes nothing at all, so no error is left
  for a later request either.
\<close>

theorem configure_limit_never_raises:
  "fst (configure_limit s url rl) = Inr ()
   \<and> (\<not> isinstance_int rl \<and> \<not> isinstance_strategy rl \<longrightarrow> snd (configure_limit s url rl) = s)"
  by (simp add: configure_limit_cases)

theorem configure_limit_never_raises_witness:
  "\<not> isinstance_int (PyStr ''fast'') \<and> \<not> isinstance_strategy (PyStr ''fast'')
   \<and> fst (configure_limit (RateLimiter_init DefaultCls 1000) ''https://api.example.com/x'' (PyStr ''fast'')) = Inr ()
   \<and> snd (configure_limit (RateLimiter_init DefaultCls 1000) ''https://api.example.com/x'' (PyStr ''fast''))
        = RateLimiter_init DefaultCls 1000"
  using configure_limit_never_raises [of "RateLimiter_init DefaultCls 1000" "''https://api.example.com/x''" "PyStr ''fast''"]
  by simp

text \<open>
  The claim as written fails: a string is neither an interval nor a strategy instance, and
  \<^verbatim>\<open>configure_limit\<close> returns normally on it.
\<close>

theorem configure_limit_invalid_counterexample:
  "num_of (PyStr ''fast'') = None
   \<and> \<not> isinstance_int (PyStr ''fast'')
   \<and> \<not> isinstance_strategy (PyStr ''fast'')
   \<and> \<not> isl (fst (configure_limit (RateLimiter_init DefaultCls 1000)
               ''https://api.example.com/x'' (PyStr ''fast'')))"
  by (simp add: configure_limit_cases)

section \<open>Resolving the limiter of a request\<close>

text \<open>
  Claim C4, as the code has it. \<open>request\<close> resolves one limiter before the loop, without
  any wait, sleep or send: the registry's instance for exactly this \<open>url\<close> if there is one
  (the per-call \<^verbatim>\<open>rate_limit\<close> is then ignored); otherwise, if the per-call
  \<^verbatim>\<open>rate_limit\<close> is truthy, a new instance of the configured strategy class built from it;
  otherwise (no \<^verbatim>\<open>rate_limit\<close>, or a falsy one such as \<open>0\<close>) a new
  \<^verbatim>\<open>DefaultRateLimitedRequest\<close>. Every \<^verbatim>\<open>wait()\<close> of the request is called on that
  limiter.
\<close>

theorem resolve_precedence:
  "resolve s url rl =
     (case get_request_group s url of
        Some a \<Rightarrow> (a, s)
      | None \<Rightarrow> if truthy rl then new_instance (rate_limit_strategy s) rl s
                else new_instance DefaultCls PyNone s)
   \<and> new_events s (snd (resolve s url rl)) = []
   \<and> set (waits (new_events s (snd (request session s meth url rl retries kwargs))))
       \<subseteq> {fst (resolve s url rl)}"
proof -
  let ?s1 = "snd (resolve s url rl)" and ?a = "fst (resolve s url rl)"
  obtain es where es: "trace (snd (retry_loop session ?s1 ?a meth url kwargs retries 0)) = trace ?s1 @ es"
      "set (waits es) \<subseteq> {?a}"
    using loop_waits_before_sends [of session ?s1 ?a meth url kwargs retries 0 False] by blast
  have "new_events s (snd (request session s meth url rl retries kwargs)) = es"
    using es(1) by (simp add: new_events_def resolve_frame request_unfold)
  then have on_limiter:
    "set (waits (new_events s (snd (request session s meth url rl retries kwargs)))) \<subseteq> {?a}"
    using es(2) by simp
  have silent: "new_events s ?s1 = []"
    by (simp add: new_events_def resolve_frame)
  show ?thesis
    by (rule conjI [OF resolve_cases conjI [OF silent on_limiter]])
qed

theorem resolve_precedence_witness:
  "resolve ((snd (new_instance LastRequestCls (PyInt 5) (RateLimiter_init LastRequestCls 1000)))
              \<lparr>endpoint_limits := [''u'' \<mapsto> 0]\<rparr>) ''u'' (PyInt 1)
     = (0, (snd (new_instance LastRequestCls (PyInt 5) (RateLimiter_init LastRequestCls 1000)))
              \<lparr>endpoint_limits := [''u'' \<mapsto> 0]\<rparr>)
   \<and> rate_limit (heap (snd (resolve (RateLimiter_init LastRequestCls 1000) ''u'' (PyInt 1)))
        (fst (resolve (RateLimiter_init LastRequestCls 1000) ''u'' (PyInt 1)))) = PyInt 1
   \<and> heap (snd (resolve (RateLimiter_init LastRequestCls 1000) ''u'' PyNone))
        (fst (resolve (RateLimiter_init LastRequestCls 1000) ''u'' PyNone)) = DefaultRateLimitedRequest"
proof -
  let ?S = "RateLimiter_init LastRequestCls 1000"
  let ?T = "(snd (new_instance LastRequestCls (PyInt 5) ?S))\<lparr>endpoint_limits := [''u'' \<mapsto> 0]\<rparr>"
  let ?session = "\<lambda>(m::string) (u::string) (k::unit) (i::nat). (Inr 200 :: exn + nat)"
  show ?thesis
    using resolve_precedence [of ?T "''u''" "PyInt 1" ?session "''GET''" 1 "()"]
      resolve_precedence [of ?S "''u''" "PyInt 1" ?session "''GET''" 1 "()"]
      resolve_precedence [of ?S "''u''" PyNone ?session "''GET''" 1 "()"]
    by (simp add: get_request_group_def new_instance_def RateLimiter_init_def)
qed

text \<open>
  The claim as written fails: with an empty registry and \<^verbatim>\<open>rate_limit=0\<close> passed, the
  limiter is not the instance the configured class builds from \<open>0\<close>.
\<close>

theorem resolve_zero_rate_limit_counterexample:
  "get_request_group (RateLimiter_init LastRequestCls 1000) ''u'' = None
   \<and> PyInt 0 \<noteq> PyNone
   \<and> heap (snd (resolve (RateLimiter_init LastRequestCls 1000) ''u'' (PyInt 0)))
          (fst (resolve (RateLimiter_init LastRequestCls 1000) ''u'' (PyInt 0)))
       \<noteq> new_object (rate_limit_strategy (RateLimiter_init LastRequestCls 1000)) (PyInt 0)"
  by (simp add: resolve_cases new_instance_def get_request_group_def RateLimiter_init_def)

text \<open>
  Claim C10. When \<open>url\<close> has no registry entry and the per-call \<^verbatim>\<open>rate_limit\<close> is an
  existing strategy instance \<open>b\<close>, the limiter is not \<open>b\<close> but a new instance of the
  configured strategy class, built with \<open>b\<close> as its constructor argument; \<open>b\<close> itself is
  left as it was, and with \<open>retries \<ge> 1\<close> every \<^verbatim>\<open>wait()\<close> of the request is called on
  the new instance.
\<close>

theorem request_wraps_strategy_argument:
  assumes "get_request_group s url = None" and "b < next_free s" and "1 \<le> retries"
  shows "fst (resolve s url (PyRef b)) = next_free s
     \<and> fst (resolve s url (PyRef b)) \<noteq> b
     \<and> heap (snd (resolve s url (PyRef b))) (fst (resolve s url (PyRef b)))
          = new_object (rate_limit_strategy s) (PyRef b)
     \<and> heap (snd (resolve s url (PyRef b))) b = heap s b
     \<and> hd (waits (new_events s (snd (request session s meth url (PyRef b) retries kwargs)))) = next_free s
     \<and> set (waits (new_events s (snd (request session s meth url (PyRef b) retries kwargs)))) = {next_free s}"
proof -
  let ?rl = "PyRef b"
  let ?s1 = "snd (resolve s url ?rl)" and ?a = "fst (resolve s url ?rl)"
  have res: "resolve s url ?rl = new_instance (rate_limit_strategy s) ?rl s"
    using assms(1) by (simp add: resolve_cases)
  have a: "?a = next_free s" by (simp add: res new_instance_def)
  have lt: "int 0 < retries" using assms(3) by simp
  obtain es where es: "trace (snd (retry_loop session ?s1 ?a meth url kwargs retries 0)) = trace ?s1 @ es"
      "set (waits es) \<subseteq> {?a}" "hd (waits es) = ?a" "waits es \<noteq> []"
    using loop_waits_before_sends [of session ?s1 ?a meth url kwargs retries 0 False] lt by auto
  have ne: "new_events s (snd (request session s meth url ?rl retries kwargs)) = es"
    using es(1) by (simp add: new_events_def resolve_frame request_unfold)
  have "set (waits es) = {?a}"
    using es(2,4) by (cases "waits es") auto
  then show ?thesis
    using assms(2) es(3) a by (simp add: ne) (simp add: res new_instance_def)
qed

theorem request_wraps_strategy_argument_witness:
  "get_request_group (snd (new_instance LastRequestCls (PyInt 2) (RateLimiter_init LastRequestCls 1000))) ''u'' = None
   \<and> 0 < next_free (snd (new_instance LastRequestCls (PyInt 2) (RateLimiter_init LastRequestCls 1000)))
   \<and> (1::int) \<le> 1
   \<and> fst (resolve (snd (new_instance LastRequestCls (PyInt 2) (RateLimiter_init LastRequestCls 1000))) ''u'' (PyRef 0)) = 1
   \<and> heap (snd (resolve (snd (new_instance LastRequestCls (PyInt 2) (RateLimiter_init LastRequestCls 1000))) ''u'' (PyRef 0))) 1
       = LastRequestRateLimitedRequest (PyRef 0) 0
   \<and> hd (waits (new_events (snd (new_instance LastRequestCls (PyInt 2) (RateLimiter_init LastRequestCls 1000)))
        (snd (request (\<lambda>m u k i. (Inr 200 :: exn + nat))
           (snd (new_instance LastRequestCls (PyInt 2) (RateLimiter_init LastRequestCls 1000)))
           ''GET'' ''u'' (PyRef 0) 1 ())))) = 1
   \<and> fst (request (\<lambda>m u k i. (Inr 200 :: exn + nat))
           (snd (new_instance LastRequestCls (PyInt 2) (RateLimiter_init LastRequestCls 1000)))
           ''GET'' ''u'' (PyRef 0) 1 ()) = Inl TypeError"
proof -
  let ?session = "\<lambda>(m::string) (u::string) (k::unit) (i::nat). (Inr 200 :: exn + nat)"
  let ?s = "snd (new_instance LastRequestCls (PyInt 2) (RateLimiter_init LastRequestCls 1000))"
  let ?s1 = "snd (resolve ?s ''u'' (PyRef 0))"
  have h1: "get_request_group ?s ''u'' = None"
    by (simp add: get_request_group_def new_instance_def RateLimiter_init_def)
  have h2: "0 < next_free ?s" by (simp add: new_instance_def RateLimiter_init_def)
  have n: "next_free ?s = 1" "rate_limit_strategy ?s = LastRequestCls"
    by (simp_all add: new_instance_def RateLimiter_init_def)
  note inst = request_wraps_strategy_argument [OF h1 h2, of 1 ?session "''GET''" "()"]
  have a: "fst (resolve ?s ''u'' (PyRef 0)) = 1"
    using inst n by simp
  have hp: "heap ?s1 1 = LastRequestRateLimitedRequest (PyRef 0) 0"
    using inst n by (simp add: a)
  have w: "fst (wait 1 ?s1) = Inl TypeError"
    using hp by (simp add: wait_def LastRequest_wait_def Let_def)
  have run: "fst (request ?session ?s ''GET'' ''u'' (PyRef 0) 1 ()) = Inl TypeError"
    using retry_loop_wait_raises [of 0 1 1 ?s1 TypeError ?session "''GET''" "''u''" "()"] w
    by (simp add: request_unfold a)
  show ?thesis
    using h1 h2 n a hp run inst by simp
qed

section \<open>Retries and backoff\<close>

text \<open>
  Claim C2, as the code has it. With \<open>retries = N \<ge> 1\<close> and a transport that raises a
  \<^verbatim>\<open>RequestException\<close> on every attempt, \<open>request\<close> makes exactly \<open>N\<close> transport
  attempts and then re-raises the exception of the last attempt, the very value the
  transport raised and nothing wrapped around it; the earlier ones are not surfaced. After
  the attempt with index \<open>j < N - 1\<close> it sleeps \<open>2 ^ j\<close>, so the backoff sleeps add up to
  \<open>2 ^ (N - 1) - 1\<close> (zero for \<open>N = 1\<close>), and at least that much time passes. The resolved
  limiter is one whose \<^verbatim>\<open>wait()\<close> returns.
\<close>

theorem request_all_attempts_fail:
  assumes "1 \<le> N"
    and "\<forall>j. int j < N \<longrightarrow> session meth url kwargs j = Inl (RequestException (c j))"
    and "wait_returns (snd (resolve s url rl)) (fst (resolve s url rl))"
  shows "fst (request session s meth url rl N kwargs) = Inl (RequestException (c (nat N - 1)))
     \<and> fst (request session s meth url rl N kwargs)
         = map_sum id Some (session meth url kwargs (nat N - 1))
     \<and> sends (new_events s (snd (request session s meth url rl N kwargs))) = nat N
     \<and> backoffs (new_events s (snd (request session s meth url rl N kwargs)))
         = map (\<lambda>j. 2 ^ j) [0..<nat N - 1]
     \<and> sum_list (backoffs (new_events s (snd (request session s meth url rl N kwargs))))
         = 2 ^ (nat N - 1) - 1
     \<and> clock s + (2 ^ (nat N - 1) - 1) \<le> clock (snd (request session s meth url rl N kwargs))"
proof -
  let ?s1 = "snd (resolve s url rl)" and ?a = "fst (resolve s url rl)"
  let ?out = "retry_loop session ?s1 ?a meth url kwargs N 0"
  have pos: "int 0 < N" using assms(1) by simp
  obtain es where es: "fst ?out = Inl (RequestException (c (nat N - 1)))"
      "trace (snd ?out) = trace ?s1 @ es" "sends es = nat N - 0"
      "backoffs es = map (\<lambda>j. 2 ^ j) [0..<nat N - 1]"
      "clock ?s1 + sum_list (backoffs es) \<le> clock (snd ?out)"
    using all_fail_loop [of N session meth url kwargs c 0 ?s1 ?a] assms(2,3) pos by blast
  have ne: "new_events s (snd ?out) = es"
    using es(2) by (simp add: new_events_def resolve_frame)
  have "int (nat N - 1) < N" using assms(1) by linarith
  then have own: "session meth url kwargs (nat N - 1) = Inl (RequestException (c (nat N - 1)))"
    using assms(2) by blast
  show ?thesis
    using es ne own by (simp add: request_unfold resolve_frame sum_powers_of_two)
qed

theorem request_all_attempts_fail_witness:
  "(1::int) \<le> 3
   \<and> wait_returns (snd (resolve (RateLimiter_init LastRequestCls 1000) ''u'' (PyInt 2)))
        (fst (resolve (RateLimiter_init LastRequestCls 1000) ''u'' (PyInt 2)))
   \<and> fst (request (\<lambda>m u k i. (Inl (RequestException (if i = 0 then ''timeout'' else ''refused'')) :: exn + nat))
          (RateLimiter_init LastRequestCls 1000) ''GET'' ''u'' (PyInt 2) 3 ())
        = Inl (RequestException ''refused'')
   \<and> sends (new_events (RateLimiter_init LastRequestCls 1000)
        (snd (request (\<lambda>m u k i. (Inl (RequestException (if i = 0 then ''timeout'' else ''refused'')) :: exn + nat))
          (RateLimiter_init LastRequestCls 1000) ''GET'' ''u'' (PyInt 2) 3 ()))) = 3
   \<and> sum_list (backoffs (new_events (RateLimiter_init LastRequestCls 1000)
        (snd (request (\<lambda>m u k i. (Inl (RequestException (if i = 0 then ''timeout'' else ''refused'')) :: exn + nat))
          (RateLimiter_init LastRequestCls 1000) ''GET'' ''u'' (PyInt 2) 3 ())))) = 3"
proof -
  let ?session = "\<lambda>(m::string) (u::string) (k::unit) (i::nat).
        (Inl (RequestException (if i = 0 then ''timeout'' else ''refused'')) :: exn + nat)"
  let ?c = "\<lambda>i::nat. if i = 0 then ''timeout'' else ''refused''"
  let ?S = "RateLimiter_init LastRequestCls 1000"
  have h1: "(1::int) \<le> 3" by simp
  have h2: "\<forall>j. int j < 3 \<longrightarrow> ?session ''GET'' ''u'' () j = Inl (RequestException (?c j))"
    by simp
  have h3: "wait_returns (snd (resolve ?S ''u'' (PyInt 2))) (fst (resolve ?S ''u'' (PyInt 2)))"
    by (simp add: resolve_cases get_request_group_def RateLimiter_init_def new_instance_def wait_returns_def)
  show ?thesis
    using h1 h3 request_all_attempts_fail [of 3 ?session "''GET''" "''u''" "()" ?c ?S "PyInt 2"]
    by (simp add: sum_powers_of_two)
qed

text \<open>
  The claim as written fails: what \<open>request\<close> raises after the last attempt is the
  transport's own exception of that attempt, unchanged, not an error of another kind that
  wraps it.
\<close>

theorem request_reraises_unwrapped_counterexample:
  "fst (request (\<lambda>m u k i. Inl (RequestException (if i = 0 then ''timeout'' else ''refused'')))
          (RateLimiter_init DefaultCls 1000) ''GET'' ''u'' PyNone 2 ())
     = (map_sum id Some
         ((\<lambda>m u k i. Inl (RequestException (if i = 0 then ''timeout'' else ''refused'')))
            ''GET'' ''u'' () (1::nat)) :: exn + nat option)
   \<and> fst (request (\<lambda>m u k i. Inl (RequestException (if i = 0 then ''timeout'' else ''refused'')))
          (RateLimiter_init DefaultCls 1000) ''GET'' ''u'' PyNone 2 ())
     = (Inl (RequestException ''refused'') :: exn + nat option)"
  by (simp add: request_unfold retry_loop.simps resolve_cases get_request_group_def
      RateLimiter_init_def new_instance_def wait_def time_sleep_def)

text \<open>
  Claim C6. With \<open>retries = N\<close> and \<open>1 \<le> k \<le> N\<close>: if the attempts \<open>1\<close> to \<open>k - 1\<close> raise a
  \<^verbatim>\<open>RequestException\<close> and attempt \<open>k\<close> returns a response, then \<open>request\<close> returns that
  response; it has made exactly \<open>k\<close> transport attempts, and the successful send is the last
  thing it did (no sleep and no further attempt follows). The resolved limiter is one whose
  \<^verbatim>\<open>wait()\<close> returns.
\<close>

theorem request_returns_first_success:
  assumes "1 \<le> k" and "int k \<le> N"
    and "\<forall>j. j < k - 1 \<longrightarrow> session meth url kwargs j = Inl (RequestException (c j))"
    and "session meth url kwargs (k - 1) = Inr r"
    and "wait_returns (snd (resolve s url rl)) (fst (resolve s url rl))"
  shows "fst (request session s meth url rl N kwargs) = Inr (Some r)
     \<and> sends (new_events s (snd (request session s meth url rl N kwargs))) = k
     \<and> last (new_events s (snd (request session s meth url rl N kwargs))) = Send meth url
     \<and> backoffs (new_events s (snd (request session s meth url rl N kwargs)))
         = map (\<lambda>j. 2 ^ j) [0..<k - 1]"
proof -
  let ?s1 = "snd (resolve s url rl)" and ?a = "fst (resolve s url rl)"
  let ?out = "retry_loop session ?s1 ?a meth url kwargs N 0"
  have kN: "int (k - 1) < N" using assms(1,2) by linarith
  obtain es where es: "fst ?out = Inr (Some r)"
      "trace (snd ?out) = trace ?s1 @ es @ [Send meth url]" "sends es = k - 1 - 0"
      "backoffs es = map (\<lambda>j. 2 ^ j) [0..<k - 1]"
    using fail_then_succeed_loop [of "k - 1" session meth url kwargs c r N 0 ?s1 ?a] assms(3,4,5) kN
    by blast
  have ne: "new_events s (snd ?out) = es @ [Send meth url]"
    using es(2) by (simp add: new_events_def resolve_frame)
  show ?thesis
    using es ne assms(1) by (simp add: request_unfold sends_append backoffs_append)
qed

theorem request_returns_first_success_witness:
  "(1::nat) \<le> 3 \<and> int 3 \<le> 3
   \<and> (\<lambda>m u k i. if i < 2 then Inl (RequestException ''timeout'') else Inr (200::nat))
          ''GET'' ''u'' () (3 - 1 :: nat) = (Inr 200 :: exn + nat)
   \<and> wait_returns (snd (resolve (RateLimiter_init LastRequestCls 1000) ''u'' (PyInt 2)))
        (fst (resolve (RateLimiter_init LastRequestCls 1000) ''u'' (PyInt 2)))
   \<and> fst (request (\<lambda>m u k i. if i < 2 then Inl (RequestException ''timeout'') else Inr (200::nat))
          (RateLimiter_init LastRequestCls 1000) ''GET'' ''u'' (PyInt 2) 3 ()) = Inr (Some 200)
   \<and> sends (new_events (RateLimiter_init LastRequestCls 1000)
        (snd (request (\<lambda>m u k i. if i < 2 then Inl (RequestException ''timeout'') else Inr (200::nat))
          (RateLimiter_init LastRequestCls 1000) ''GET'' ''u'' (PyInt 2) 3 ()))) = 3"
proof -
  let ?session = "\<lambda>(m::string) (u::string) (k::unit) (i::nat).
        if i < 2 then Inl (RequestException ''timeout'') else (Inr 200 :: exn + nat)"
  let ?S = "RateLimiter_init LastRequestCls 1000"
  have h: "wait_returns (snd (resolve ?S ''u'' (PyInt 2))) (fst (resolve ?S ''u'' (PyInt 2)))"
    by (simp add: resolve_cases get_request_group_def RateLimiter_init_def new_instance_def wait_returns_def)
  show ?thesis
    using h request_returns_first_success [of 3 3 ?session "''GET''" "''u''" "()" "\<lambda>j. ''timeout''" 200 ?S "PyInt 2"]
    by simp
qed

text \<open>
  Claim C7. Whatever response the transport returns to an attempt of \<open>request\<close> is handed
  back by \<open>request\<close> as it is, on that attempt: the attempt is the last one, nothing
  follows its send, and nothing is raised. This holds for the first attempt of a request
  with \<open>retries \<ge> 1\<close> and for any later attempt the request makes; the backoff sleeps of
  the request are those after the earlier attempts, none after this one. The type of
  responses is arbitrary, so the status of the response plays no part. The resolved
  limiter is one whose \<^verbatim>\<open>wait()\<close> returns.
\<close>

theorem request_returns_any_response:
  assumes "wait_returns (snd (resolve s url rl)) (fst (resolve s url rl))"
    and "session meth url kwargs k = Inr response"
    and "(k = 0 \<and> 1 \<le> retries)
         \<or> k < sends (new_events s (snd (request session s meth url rl retries kwargs)))"
  shows "fst (request session s meth url rl retries kwargs) = Inr (Some response)
     \<and> sends (new_events s (snd (request session s meth url rl retries kwargs))) = Suc k
     \<and> last (new_events s (snd (request session s meth url rl retries kwargs))) = Send meth url
     \<and> backoffs (new_events s (snd (request session s meth url rl retries kwargs)))
         = map (\<lambda>j. 2 ^ j) [0..<k]"
proof -
  let ?s1 = "snd (resolve s url rl)" and ?a = "fst (resolve s url rl)"
  let ?out = "retry_loop session ?s1 ?a meth url kwargs retries 0"
  have same: "new_events s (snd ?out) = new_events ?s1 (snd ?out)"
    by (simp add: new_events_def resolve_frame)
  have made: "k - 0 < sends (new_events ?s1 (snd ?out))"
    using assms(3)
  proof
    assume first: "k = 0 \<and> 1 \<le> retries"
    then have lt: "int 0 < retries" by simp
    have w: "fst (wait ?a ?s1) = Inr ()" using assms(1) by (simp add: wait_returns_wait)
    obtain ws where ws: "trace (snd (wait ?a ?s1)) = trace ?s1 @ Wait ?a # ws" "sends ws = 0"
      using wait_effect [of ?a ?s1] by blast
    have "?out = (Inr (Some response),
                  (snd (wait ?a ?s1))\<lparr>trace := trace (snd (wait ?a ?s1)) @ [Send meth url]\<rparr>)"
      using retry_loop_step [OF lt w, of session meth url kwargs] assms(2) first
      by (simp add: Let_def)
    then show ?thesis
      using ws first by (simp add: new_events_def sends_append)
  next
    assume "k < sends (new_events s (snd (request session s meth url rl retries kwargs)))"
    then show ?thesis by (simp add: request_unfold same)
  qed
  show ?thesis
    using response_ends_loop [of session meth url kwargs k response ?s1 ?a 0 retries]
      assms(1,2) made
    by (simp add: request_unfold same)
qed

theorem request_returns_any_response_witness:
  "wait_returns (snd (resolve (RateLimiter_init DefaultCls 1000) ''u'' PyNone))
        (fst (resolve (RateLimiter_init DefaultCls 1000) ''u'' PyNone))
   \<and> (1::int) \<le> 1
   \<and> fst (request (\<lambda>m u k i. (Inr 404 :: exn + nat)) (RateLimiter_init DefaultCls 1000)
          ''GET'' ''u'' PyNone 1 ()) = Inr (Some 404)
   \<and> sends (new_events (RateLimiter_init DefaultCls 1000)
        (snd (request (\<lambda>m u k i. (Inr 404 :: exn + nat)) (RateLimiter_init DefaultCls 1000)
          ''GET'' ''u'' PyNone 1 ()))) = 1
   \<and> 1 < sends (new_events (RateLimiter_init DefaultCls 1000)
        (snd (request (\<lambda>m u k i. if i = 0 then Inl (RequestException ''timeout'') else (Inr 500 :: exn + nat))
          (RateLimiter_init DefaultCls 1000) ''GET'' ''u'' PyNone 3 ())))
   \<and> fst (request (\<lambda>m u k i. if i = 0 then Inl (RequestException ''timeout'') else (Inr 500 :: exn + nat))
          (RateLimiter_init DefaultCls 1000) ''GET'' ''u'' PyNone 3 ()) = Inr (Some 500)
   \<and> sends (new_events (RateLimiter_init DefaultCls 1000)
        (snd (request (\<lambda>m u k i. if i = 0 then Inl (RequestException ''timeout'') else (Inr 500 :: exn + nat))
          (RateLimiter_init DefaultCls 1000) ''GET'' ''u'' PyNone 3 ()))) = 2"
proof -
  let ?S = "RateLimiter_init DefaultCls 1000"
  let ?ok = "\<lambda>(m::string) (u::string) (k::unit) (i::nat). (Inr 404 :: exn + nat)"
  let ?flaky = "\<lambda>(m::string) (u::string) (k::unit) (i::nat).
        if i = 0 then Inl (RequestException ''timeout'') else (Inr 500 :: exn + nat)"
  have h: "wait_returns (snd (resolve ?S ''u'' PyNone)) (fst (resolve ?S ''u'' PyNone))"
    by (simp add: resolve_cases get_request_group_def RateLimiter_init_def new_instance_def wait_returns_def)
  have made: "1 < sends (new_events ?S (snd (request ?flaky ?S ''GET'' ''u'' PyNone 3 ())))"
    by (simp add: request_unfold retry_loop.simps resolve_cases get_request_group_def
        RateLimiter_init_def new_instance_def wait_def time_sleep_def new_events_def)
  show ?thesis
    using h made
      request_returns_any_response [of ?S "''u''" PyNone ?ok "''GET''" "()" 0 404 1]
      request_returns_any_response [of ?S "''u''" PyNone ?flaky "''GET''" "()" 1 500 3]
    by simp
qed

text \<open>
  Claim C8. In every run of \<open>request\<close>, each transport attempt is preceded by a call of
  \<^verbatim>\<open>wait()\<close> on the resolved limiter made after the previous attempt, and
  \<^verbatim>\<open>wait()\<close> is called on no other instance.
\<close>

theorem request_waits_before_every_send:
  "wait_before_send (fst (resolve s url rl)) False
     (new_events s (snd (request session s meth url rl retries kwargs)))
   \<and> set (waits (new_events s (snd (request session s meth url rl retries kwargs))))
       \<subseteq> {fst (resolve s url rl)}"
proof -
  let ?s1 = "snd (resolve s url rl)" and ?a = "fst (resolve s url rl)"
  obtain es where es: "trace (snd (retry_loop session ?s1 ?a meth url kwargs retries 0)) = trace ?s1 @ es"
      "wait_before_send ?a False es" "set (waits es) \<subseteq> {?a}"
    using loop_waits_before_sends [of session ?s1 ?a meth url kwargs retries 0 False] by blast
  have "new_events s (snd (retry_loop session ?s1 ?a meth url kwargs retries 0)) = es"
    using es(1) by (simp add: new_events_def resolve_frame)
  then show ?thesis
    using es by (simp add: request_unfold)
qed

text \<open>
  Claim C9. With \<open>retries \<le> 0\<close> the loop body never runs: \<open>request\<close> returns \<^verbatim>\<open>None\<close>
  without any wait, sleep or send, raising nothing, and no time passes.
\<close>

theorem request_nonpositive_retries:
  assumes "retries \<le> 0"
  shows "fst (request session s meth url rl retries kwargs) = Inr None
     \<and> new_events s (snd (request session s meth url rl retries kwargs)) = []
     \<and> clock (snd (request session s meth url rl retries kwargs)) = clock s"
proof -
  have "\<not> int 0 < retries" using assms by simp
  then show ?thesis
    by (simp add: request_unfold retry_loop_done resolve_frame new_events_def)
qed

theorem request_nonpositive_retries_witness:
  "(0::int) \<le> 0
   \<and> fst (request (\<lambda>m u k i. (Inr 200 :: exn + nat)) (RateLimiter_init LastRequestCls 1000)
          ''GET'' ''u'' (PyInt 2) 0 ()) = Inr None
   \<and> new_events (RateLimiter_init LastRequestCls 1000)
        (snd (request (\<lambda>m u k i. (Inr 200 :: exn + nat)) (RateLimiter_init LastRequestCls 1000)
          ''GET'' ''u'' (PyInt 2) 0 ())) = []"
  using request_nonpositive_retries [of 0 "\<lambda>m u k i. (Inr 200 :: exn + nat)" "RateLimiter_init LastRequestCls 1000"
      "''GET''" "''u''" "PyInt 2" "()"]
  by simp

end
